theory Spec2Isabelle
  imports Complex_Main "HOL-Library.Sublist" "HOL-Library.Multiset"
begin

section \<open>usePopcorn: the search hook, the storage hook and the watched list\<close>

text \<open>
  The development follows three source files: \<^verbatim>\<open>useMovies.js\<close> (the query-driven
  fetch with cancellation), \<^verbatim>\<open>useLocalStorage.js\<close> (state mirrored into
  \<^verbatim>\<open>localStorage\<close>) and \<^verbatim>\<open>App.js\<close> (\<^verbatim>\<open>average\<close>,
  \<^verbatim>\<open>WatchedSummary\<close>, \<^verbatim>\<open>handleDeleteWatched\<close>).
  React state is modelled by explicit state passing: a setter call is a record update.
  \<open>step\<close> applies every setter call the hook makes; \<open>react_step\<close> puts the component
  around it and discards the setter calls made after the unmount, as React does.
  JavaScript Numbers are binary64 values with their rounding.
  The browser is the environment: what \<^verbatim>\<open>fetch\<close> delivers is the parameter of an
  event, \<^verbatim>\<open>JSON.parse\<close> and \<^verbatim>\<open>JSON.stringify\<close> are parameters of the
  storage hook.
\<close>

subsection \<open>useMovies: data\<close>

text \<open>A thrown JavaScript error, as far as the hook reads it: \<^verbatim>\<open>error.name\<close> and
  \<^verbatim>\<open>error.message\<close>.\<close>

record js_error =
  name :: string
  message :: string

text \<open>\<^verbatim>\<open>new Error(msg)\<close>: the name of a plain \<^verbatim>\<open>Error\<close> is "Error".\<close>

definition new_Error :: "string \<Rightarrow> js_error" where
  "new_Error msg = \<lparr>name = ''Error'', message = msg\<rparr>"

text \<open>The parsed body of the provider's answer: the fields \<^verbatim>\<open>data.Response\<close> and
  \<^verbatim>\<open>data.Search\<close>. The type of a movie entry is left open.\<close>

record 'm omdb_data =
  Response :: string
  Search :: "'m list"

text \<open>The object \<^verbatim>\<open>fetch\<close> resolves to: \<^verbatim>\<open>response.ok\<close>, and what
  \<^verbatim>\<open>await response.json()\<close> gives, a rejection or the parsed data.\<close>

record 'm response =
  ok :: bool
  json :: "js_error + 'm omdb_data"

text \<open>What \<^verbatim>\<open>await fetch(...)\<close> gives: a rejection (a network failure, or an
  \<^verbatim>\<open>AbortError\<close> once the signal is aborted) or a response.\<close>

datatype 'm fetch_result = Rejected js_error | Resolved "'m response"

text \<open>The three pieces of state of the hook. \<^verbatim>\<open>useState(null)\<close> for the error
  is \<open>None\<close>, a string \<open>s\<close> is \<open>Some s\<close>.\<close>

record 'm hook_state =
  movies :: "'m list"
  isLoading :: bool
  error :: "string option"

definition initial_state :: "'m hook_state" where
  "initial_state = \<lparr>movies = [], isLoading = False, error = None\<rparr>"

subsection \<open>useMovies: fetchMovies\<close>

text \<open>The two statements of \<^verbatim>\<open>fetchMovies\<close> that run before the first
  \<^verbatim>\<open>await\<close>: \<^verbatim>\<open>setIsLoading(true); setError("")\<close>.\<close>

definition fetchMovies_start :: "'m hook_state \<Rightarrow> 'm hook_state" where
  "fetchMovies_start s = s\<lparr>isLoading := True, error := Some ''''\<rparr>"

text \<open>The rest of the \<^verbatim>\<open>try\<close> block, from the first \<^verbatim>\<open>await\<close> on: \<open>Inl e\<close>
  when \<open>e\<close> is thrown, \<open>Inr ms\<close> when the block reaches \<^verbatim>\<open>setMovies(data.Search)\<close>.\<close>

definition fetchMovies_try :: "'m fetch_result \<Rightarrow> js_error + 'm list" where
  "fetchMovies_try res =
     (case res of
        Rejected e \<Rightarrow> Inl e
      | Resolved rsp \<Rightarrow>
          if \<not> ok rsp then Inl (new_Error ''Something went wrong with fetching movies'')
          else (case json rsp of
                  Inl e \<Rightarrow> Inl e
                | Inr d \<Rightarrow>
                    if Response d = ''False'' then Inl (new_Error ''Movie not found'')
                    else Inr (Search d)))"

text \<open>The \<^verbatim>\<open>catch\<close> block writes the message unless the error is an
  \<^verbatim>\<open>AbortError\<close>; the \<^verbatim>\<open>finally\<close> block always runs
  \<^verbatim>\<open>setIsLoading(false)\<close>.\<close>

definition fetchMovies_finish :: "'m fetch_result \<Rightarrow> 'm hook_state \<Rightarrow> 'm hook_state" where
  "fetchMovies_finish res s =
     (let s1 = (case fetchMovies_try res of
                  Inr ms \<Rightarrow> s\<lparr>movies := ms\<rparr>
                | Inl e \<Rightarrow> if name e \<noteq> ''AbortError'' then s\<lparr>error := Some (message e)\<rparr> else s)
      in s1\<lparr>isLoading := False\<rparr>)"

text \<open>The \<^verbatim>\<open>try\<close> block ended with an \<^verbatim>\<open>AbortError\<close>: the awaited
  \<^verbatim>\<open>fetch\<close> or body read was rejected because the signal was aborted.\<close>

definition abort_error_caught :: "'m fetch_result \<Rightarrow> bool" where
  "abort_error_caught res =
     (case fetchMovies_try res of Inl e \<Rightarrow> name e = ''AbortError'' | Inr ms \<Rightarrow> False)"

subsection \<open>useMovies: the effect and its cleanup\<close>

text \<open>
  A configuration of the hook: its state, the controllers whose
  \<^verbatim>\<open>fetchMovies\<close> is suspended at an \<^verbatim>\<open>await\<close>, the controllers on which
  \<^verbatim>\<open>abort()\<close> has been called, the controller captured by the cleanup function that
  the last effect run returned (none after the early \<^verbatim>\<open>return\<close>), and the next
  unused controller identity. The optional \<^verbatim>\<open>callback\<close> does not touch the state
  of the hook and is left out.
\<close>

record 'm config =
  ui :: "'m hook_state"
  pending :: "nat list"
  aborted :: "nat list"
  cleanup :: "nat option"
  fresh :: nat

definition init_config :: "'m config" where
  "init_config = \<lparr>ui = initial_state, pending = [], aborted = [], cleanup = None, fresh = 0\<rparr>"

text \<open>The cleanup function \<^verbatim>\<open>controller.abort()\<close>, when one is registered.\<close>

definition run_cleanup :: "'m config \<Rightarrow> 'm config" where
  "run_cleanup c =
     (case cleanup c of
        None \<Rightarrow> c
      | Some i \<Rightarrow> c\<lparr>aborted := i # aborted c, cleanup := None\<rparr>)"

text \<open>The effect body for the query \<open>q\<close>: a new controller; for a query shorter than
  three characters \<^verbatim>\<open>setMovies([]); setError(""); return\<close>, otherwise
  \<^verbatim>\<open>fetchMovies()\<close> up to its first \<^verbatim>\<open>await\<close> and the cleanup function.\<close>

definition effect :: "string \<Rightarrow> 'm config \<Rightarrow> 'm config" where
  "effect q c =
     (let i = fresh c; c1 = c\<lparr>fresh := Suc i\<rparr>
      in if length q < 3
         then c1\<lparr>ui := (ui c1)\<lparr>movies := [], error := Some ''''\<rparr>, cleanup := None\<rparr>
         else c1\<lparr>ui := fetchMovies_start (ui c1), pending := i # pending c1,
                 cleanup := Some i\<rparr>)"

text \<open>
  What can happen to the hook: the query changes (React runs the previous cleanup, then
  the effect), the component unmounts (React runs the cleanup), or the suspended
  \<^verbatim>\<open>fetchMovies\<close> of controller \<open>i\<close> resumes with what the browser delivers.
\<close>

datatype 'm event = Render string | Unmount | Settle nat "'m fetch_result"

fun step :: "'m event \<Rightarrow> 'm config \<Rightarrow> 'm config" where
  "step (Render q) c = effect q (run_cleanup c)"
| "step Unmount c = run_cleanup c"
| "step (Settle i res) c =
     (if i \<in> set (pending c)
      then c\<lparr>ui := fetchMovies_finish res (ui c), pending := removeAll i (pending c)\<rparr>
      else c)"

fun run :: "'m event list \<Rightarrow> 'm config \<Rightarrow> 'm config" where
  "run [] c = c"
| "run (e # es) c = run es (step e c)"

text \<open>The transport honours cancellation along a run: whenever the request of an
  aborted controller completes, it completes with an \<^verbatim>\<open>AbortError\<close>.\<close>

fun honoured :: "'m event list \<Rightarrow> 'm config \<Rightarrow> bool" where
  "honoured [] c = True"
| "honoured (e # es) c =
     ((case e of
         Settle i res \<Rightarrow> i \<in> set (pending c) \<and> i \<in> set (aborted c) \<longrightarrow> abort_error_caught res
       | _ \<Rightarrow> True)
      \<and> honoured es (step e c))"

text \<open>Only completions, no further query change and no unmount.\<close>

fun is_Settle :: "'m event \<Rightarrow> bool" where
  "is_Settle (Settle i res) = True"
| "is_Settle e = False"

text \<open>What the first completion of controller \<open>i\<close> in a list of events delivers.\<close>

fun first_settle :: "nat \<Rightarrow> 'm event list \<Rightarrow> 'm fetch_result option" where
  "first_settle i [] = None"
| "first_settle i (Settle j res # es) = (if j = i then Some res else first_settle i es)"
| "first_settle i (e # es) = first_settle i es"

subsection \<open>useMovies: the component around the hook\<close>

text \<open>
  React keeps the state of a component only while it is mounted. After the unmount no
  effect runs any more; a suspended \<^verbatim>\<open>fetchMovies\<close> still resumes and calls its
  setters, and React discards those calls: the state is not written.
\<close>

record 'm component =
  hook :: "'m config"
  mounted :: bool

definition mount :: "'m component" where
  "mount = \<lparr>hook = init_config, mounted = True\<rparr>"

fun react_step :: "'m event \<Rightarrow> 'm component \<Rightarrow> 'm component" where
  "react_step (Render q) x =
     (if mounted x then x\<lparr>hook := step (Render q) (hook x)\<rparr> else x)"
| "react_step Unmount x =
     (if mounted x then \<lparr>hook = step Unmount (hook x), mounted = False\<rparr> else x)"
| "react_step (Settle i res) x =
     (if mounted x then x\<lparr>hook := step (Settle i res) (hook x)\<rparr>
      else x\<lparr>hook := (step (Settle i res) (hook x))\<lparr>ui := ui (hook x)\<rparr>\<rparr>)"

fun react_run :: "'m event list \<Rightarrow> 'm component \<Rightarrow> 'm component" where
  "react_run [] x = x"
| "react_run (e # es) x = react_run es (react_step e x)"

subsection \<open>useLocalStorage\<close>

text \<open>\<^verbatim>\<open>localStorage\<close> maps keys to strings; \<^verbatim>\<open>getItem\<close> of an absent key is
  \<^verbatim>\<open>null\<close>.\<close>

type_synonym storage = "string \<rightharpoonup> string"

definition getItem :: "storage \<Rightarrow> string \<Rightarrow> string option" where
  "getItem st key = st key"

definition setItem :: "storage \<Rightarrow> string \<Rightarrow> string \<Rightarrow> storage" where
  "setItem st key v = st(key \<mapsto> v)"

text \<open>The lazy initialiser: \<^verbatim>\<open>storedValue ? JSON.parse(storedValue) : initialState\<close>.
  \<^verbatim>\<open>null\<close> and the empty string are falsy. \<^verbatim>\<open>JSON.parse\<close> is a parameter; it
  may throw.\<close>

definition lazy_init ::
  "(string \<Rightarrow> js_error + 'v) \<Rightarrow> storage \<Rightarrow> 'v \<Rightarrow> string \<Rightarrow> js_error + 'v" where
  "lazy_init JSON_parse st initialState key =
     (case getItem st key of
        None \<Rightarrow> Inr initialState
      | Some storedValue \<Rightarrow>
          if storedValue = [] then Inr initialState else JSON_parse storedValue)"

text \<open>\<^verbatim>\<open>[...value]\<close> for an array value: a copy with the same elements.\<close>

definition spread :: "'a list \<Rightarrow> 'a list" where
  "spread v = foldl (\<lambda>acc x. acc @ [x]) [] v"

text \<open>The effect: \<^verbatim>\<open>localStorage.setItem(key, JSON.stringify([...value]))\<close>.\<close>

definition persist :: "('a list \<Rightarrow> string) \<Rightarrow> string \<Rightarrow> 'a list \<Rightarrow> storage \<Rightarrow> storage" where
  "persist JSON_stringify key v st = setItem st key (JSON_stringify (spread v))"

subsection \<open>App: average, WatchedSummary, handleDeleteWatched\<close>

text \<open>
  A JavaScript Number is an IEEE 754 binary64 value: a finite value (a real number that
  is representable), an infinity or NaN. The two zeros are not told apart. The length of
  an array is a natural number, which is exact as a Number.
\<close>

datatype number = Fin real | PosInf | NegInf | NaN

text \<open>\<open>2\<close> to an integer power.\<close>

definition pow2 :: "int \<Rightarrow> real" where
  "pow2 e = (if 0 \<le> e then 2 ^ nat e else 1 / 2 ^ nat (- e))"

text \<open>The exponent \<open>e\<close> of the last place of the binary64 values next to \<open>x > 0\<close>: the
  one with \<open>2 ^ 52 \<le> x / 2 ^ e < 2 ^ 53\<close>, and \<open>- 1074\<close> in the subnormal range. The
  first argument bounds the search; \<open>2200\<close> steps reach every exponent of the format.\<close>

fun ulp_exp :: "nat \<Rightarrow> real \<Rightarrow> int \<Rightarrow> int" where
  "ulp_exp fuel x e =
     (if fuel = 0 then e
      else if x < 2 ^ 52 \<and> - 1074 < e then ulp_exp (fuel - 1) (2 * x) (e - 1)
      else if 2 ^ 53 \<le> x then ulp_exp (fuel - 1) (x / 2) (e + 1)
      else e)"

text \<open>The nearest integer, a tie going to the even one.\<close>

definition round_half_even :: "real \<Rightarrow> int" where
  "round_half_even x =
     (let f = \<lfloor>x\<rfloor>; d = x - of_int f
      in if d < 1 / 2 then f else if 1 / 2 < d then f + 1 else if even f then f else f + 1)"

text \<open>Rounding to nearest, ties to even, with 53 significant bits and the exponent
  unbounded above.\<close>

definition round64 :: "real \<Rightarrow> real" where
  "round64 x =
     (if x = 0 then 0
      else (let e = ulp_exp 2200 \<bar>x\<bar> 0 in of_int (round_half_even (x / pow2 e)) * pow2 e))"

text \<open>A rounded result of magnitude \<open>2 ^ 1024\<close> or more overflows to an infinity.\<close>

definition to_number :: "real \<Rightarrow> number" where
  "to_number y = (if 2 ^ 1024 \<le> \<bar>y\<bar> then (if 0 < y then PosInf else NegInf) else Fin y)"

text \<open>\<^verbatim>\<open>a + b\<close> on Numbers.\<close>

fun js_add :: "number \<Rightarrow> number \<Rightarrow> number" where
  "js_add NaN b = NaN"
| "js_add a NaN = NaN"
| "js_add PosInf NegInf = NaN"
| "js_add NegInf PosInf = NaN"
| "js_add PosInf b = PosInf"
| "js_add NegInf b = NegInf"
| "js_add a PosInf = PosInf"
| "js_add a NegInf = NegInf"
| "js_add (Fin x) (Fin y) = to_number (round64 (x + y))"

text \<open>\<^verbatim>\<open>a / n\<close> for a Number \<open>a\<close> and an array length \<open>n\<close>. Division by zero
  gives NaN or an infinity.\<close>

fun js_div :: "number \<Rightarrow> nat \<Rightarrow> number" where
  "js_div NaN n = NaN"
| "js_div PosInf n = PosInf"
| "js_div NegInf n = NegInf"
| "js_div (Fin x) n =
     (if n = 0 then (if x = 0 then NaN else if 0 < x then PosInf else NegInf)
      else Fin (round64 (x / real n)))"

text \<open>\<^verbatim>\<open>arr.reduce((acc, cur, i, arr) => acc + cur / arr.length, 0)\<close>. On the empty
  array \<^verbatim>\<open>reduce\<close> returns its initial value and the callback, with its division,
  never runs.\<close>

definition average :: "number list \<Rightarrow> number" where
  "average arr = foldl (\<lambda>acc cur. js_add acc (js_div cur (length arr))) (Fin 0) arr"

text \<open>The sum of an array divided by its length, computed on Numbers:
  \<^verbatim>\<open>arr.reduce((acc, cur) => acc + cur, 0) / arr.length\<close>.\<close>

definition sum_over_length :: "number list \<Rightarrow> number" where
  "sum_over_length arr = js_div (foldl js_add (Fin 0) arr) (length arr)"

text \<open>A real number is a finite binary64 value when rounding leaves it as it is and it
  does not overflow.\<close>

definition representable :: "real \<Rightarrow> bool" where
  "representable y \<longleftrightarrow> round64 y = y \<and> \<bar>y\<bar> < 2 ^ 1024"

text \<open>No step of the \<^verbatim>\<open>reduce\<close> rounds: from the accumulator \<open>acc\<close>, every quotient
  by \<open>n\<close> and every new accumulator is a finite binary64 value.\<close>

fun unrounded :: "nat \<Rightarrow> real \<Rightarrow> real list \<Rightarrow> bool" where
  "unrounded n acc [] = True"
| "unrounded n acc (x # xs) =
     (representable (x / real n) \<and> representable (acc + x / real n)
      \<and> unrounded n (acc + x / real n) xs)"

text \<open>An entry of the watched list, as \<^verbatim>\<open>handleAdd\<close> builds it. The runtime is
  the number that the division in \<^verbatim>\<open>average\<close> reads from the stored string.\<close>

record watched_movie =
  imdbID :: string
  title :: string
  year :: string
  poster :: string
  imdbRating :: number
  userRating :: number
  runtime :: number
  countRatingDecisions :: nat

text \<open>The three numbers \<^verbatim>\<open>WatchedSummary\<close> computes before rendering.\<close>

record summary =
  avgImdbRating :: number
  avgUserRating :: number
  avgRuntime :: number

definition WatchedSummary :: "watched_movie list \<Rightarrow> summary" where
  "WatchedSummary watched =
     \<lparr>avgImdbRating = average (map imdbRating watched),
      avgUserRating = average (map userRating watched),
      avgRuntime = average (map runtime watched)\<rparr>"

text \<open>\<^verbatim>\<open>Array.prototype.filter\<close>: visit the elements in index order and append
  those for which the callback is true to a new array.\<close>

fun filter_from :: "('a \<Rightarrow> bool) \<Rightarrow> 'a list \<Rightarrow> 'a list \<Rightarrow> 'a list" where
  "filter_from p [] res = res"
| "filter_from p (x # xs) res = filter_from p xs (if p x then res @ [x] else res)"

definition array_filter :: "('a \<Rightarrow> bool) \<Rightarrow> 'a list \<Rightarrow> 'a list" where
  "array_filter p xs = filter_from p xs []"

text \<open>\<^verbatim>\<open>setWatched((watched) => watched.filter((movie) => movie.imdbID !== id))\<close>:
  the new value of the watched list.\<close>

definition handleDeleteWatched :: "string \<Rightarrow> watched_movie list \<Rightarrow> watched_movie list" where
  "handleDeleteWatched id' watched = array_filter (\<lambda>movie. imdbID movie \<noteq> id') watched"

subsection \<open>Example inputs\<close>

text \<open>The rejection of an aborted \<^verbatim>\<open>fetch\<close>, a successful answer with the entries
  \<open>ms\<close>, and the provider's answer when nothing matches.\<close>

definition AbortError :: js_error where
  "AbortError = \<lparr>name = ''AbortError'', message = ''The user aborted a request.''\<rparr>"

definition found :: "'m list \<Rightarrow> 'm fetch_result" where
  "found ms = Resolved \<lparr>ok = True, json = Inr \<lparr>Response = ''True'', Search = ms\<rparr>\<rparr>"

definition not_found :: "'m fetch_result" where
  "not_found = Resolved \<lparr>ok = True, json = Inr \<lparr>Response = ''False'', Search = []\<rparr>\<rparr>"

text \<open>A small codec for arrays of booleans, standing in for \<^verbatim>\<open>JSON.stringify\<close> and
  \<^verbatim>\<open>JSON.parse\<close> on such arrays, and the error \<^verbatim>\<open>JSON.parse\<close> throws on
  anything else.\<close>

definition SyntaxError :: js_error where
  "SyntaxError = \<lparr>name = ''SyntaxError'', message = ''Unexpected token''\<rparr>"

fun json_items :: "bool list \<Rightarrow> string" where
  "json_items [] = []"
| "json_items [b] = (if b then ''true'' else ''false'')"
| "json_items (b # bs) = (if b then ''true'' else ''false'') @ '','' @ json_items bs"

definition stringify_bools :: "bool list \<Rightarrow> string" where
  "stringify_bools bs = ''['' @ json_items bs @ '']''"

fun split_on :: "char \<Rightarrow> string \<Rightarrow> string list" where
  "split_on c [] = [[]]"
| "split_on c (x # xs) =
     (case split_on c xs of
        [] \<Rightarrow> [[x]]
      | t # ts \<Rightarrow> if x = c then [] # t # ts else (x # t) # ts)"

definition parse_bools :: "string \<Rightarrow> js_error + bool list" where
  "parse_bools s =
     (if s = ''[]'' then Inr []
      else if 2 \<le> length s \<and> hd s = CHR ''['' \<and> last s = CHR '']''
      then (let toks = split_on (CHR '','') (butlast (tl s))
            in if list_all (\<lambda>t. t = ''true'' \<or> t = ''false'') toks
               then Inr (map (\<lambda>t. t = ''true'') toks)
               else Inl SyntaxError)
      else Inl SyntaxError)"

text \<open>An entry of the watched list with the identity \<open>i\<close> and the rating \<open>r\<close>.\<close>

definition watched_entry :: "string \<Rightarrow> real \<Rightarrow> watched_movie" where
  "watched_entry i r =
     \<lparr>imdbID = i, title = ''Alien'', year = ''1979'', poster = ''N/A'', imdbRating = Fin r,
      userRating = Fin 8, runtime = Fin 117, countRatingDecisions = 1\<rparr>"

text \<open>What holds of every configuration the hook can reach: controller identities are
  below the next unused one, a suspended request is aborted unless it belongs to the
  registered cleanup, and the spinner is on only while a request is suspended.\<close>

definition wf_config :: "'m config \<Rightarrow> bool" where
  "wf_config c \<longleftrightarrow>
     (\<forall>j\<in>set (pending c). j < fresh c) \<and>
     (\<forall>j\<in>set (aborted c). j < fresh c) \<and>
     (case cleanup c of None \<Rightarrow> True | Some j \<Rightarrow> j < fresh c) \<and>
     (\<forall>j\<in>set (pending c). j \<in> set (aborted c) \<or> cleanup c = Some j) \<and>
     (isLoading (ui c) \<longrightarrow> pending c \<noteq> [])"

section \<open>Helper lemmas\<close>

lemma filter_from_eq: "filter_from p xs res = res @ filter p xs"
  by (induction xs arbitrary: res) auto

lemma array_filter_eq: "array_filter p xs = filter p xs"
  by (simp add: array_filter_def filter_from_eq)

lemma spread_append: "foldl (\<lambda>acc x. acc @ [x]) ys v = ys @ v"
  by (induction v arbitrary: ys) auto

lemma spread_eq: "spread v = v"
  by (simp add: spread_def spread_append)

lemma wf_init: "wf_config init_config"
  by (simp add: wf_config_def init_config_def initial_state_def)

lemma finish_not_loading: "\<not> isLoading (fetchMovies_finish res s)"
  by (simp add: fetchMovies_finish_def Let_def split: sum.splits)

lemma finish_abort: "abort_error_caught res \<Longrightarrow> fetchMovies_finish res s = s\<lparr>isLoading := False\<rparr>"
  by (simp add: fetchMovies_finish_def abort_error_caught_def Let_def split: sum.splits)

lemma finish_loading_irrelevant:
  "fetchMovies_finish res (s\<lparr>isLoading := b\<rparr>) = fetchMovies_finish res s"
  by (simp add: fetchMovies_finish_def Let_def split: sum.splits)

lemma wf_run_cleanup: "wf_config c \<Longrightarrow> wf_config (run_cleanup c)"
  by (auto simp: wf_config_def run_cleanup_def split: option.splits)

lemma wf_effect: "wf_config c \<Longrightarrow> cleanup c = None \<Longrightarrow> wf_config (effect q c)"
  by (auto simp: wf_config_def effect_def Let_def fetchMovies_start_def less_Suc_eq
      split: option.splits)

lemma cleanup_run_cleanup: "cleanup (run_cleanup c) = None"
  by (simp add: run_cleanup_def split: option.splits)

lemma wf_step: "wf_config c \<Longrightarrow> wf_config (step e c)"
proof (cases e)
  case (Render q)
  then show "wf_config c \<Longrightarrow> wf_config (step e c)"
    by (simp add: wf_effect wf_run_cleanup cleanup_run_cleanup)
next
  case Unmount
  then show "wf_config c \<Longrightarrow> wf_config (step e c)" by (simp add: wf_run_cleanup)
next
  case (Settle i res)
  then show "wf_config c \<Longrightarrow> wf_config (step e c)"
    by (auto simp: wf_config_def finish_not_loading split: option.splits)
qed

lemma wf_run: "wf_config c \<Longrightarrow> wf_config (run es c)"
  by (induction es arbitrary: c) (auto simp: wf_step)

lemma wf_reachable: "wf_config (run hist init_config)"
  by (simp add: wf_run wf_init)

lemma is_Settle_cases: "is_Settle e \<Longrightarrow> \<exists>i res. e = Settle i res"
  by (cases e) auto

lemma stale_only:
  assumes "\<forall>e\<in>set evs. is_Settle e" "honoured evs d"
    and "set (pending d) \<subseteq> set (aborted d)"
    and "pending (run evs d) = []" "isLoading (ui d) \<longrightarrow> pending d \<noteq> []"
  shows "ui (run evs d) = (ui d)\<lparr>isLoading := False\<rparr>"
  using assms
proof (induction evs arbitrary: d)
  case Nil
  then show ?case by simp
next
  case (Cons e evs)
  from Cons.prems(1) obtain i res where e: "e = Settle i res"
    using is_Settle_cases by fastforce
  show ?case
  proof (cases "i \<in> set (pending d)")
    case False
    with e have same: "step e d = d" by simp
    from Cons.IH [of d] Cons.prems same show ?thesis by simp
  next
    case True
    let ?d = "step e d"
    from True e Cons.prems(2,3) have ab: "abort_error_caught res" by auto
    with True e have u: "ui ?d = (ui d)\<lparr>isLoading := False\<rparr>"
      by (simp add: finish_abort)
    have sub: "set (pending ?d) \<subseteq> set (aborted ?d)"
      using e True Cons.prems(3) by auto
    have "ui (run evs ?d) = (ui ?d)\<lparr>isLoading := False\<rparr>"
      using Cons.IH [of ?d] Cons.prems sub u by simp
    with u show ?thesis by simp
  qed
qed

lemma live_then_stale:
  assumes "\<forall>e\<in>set evs. is_Settle e" "honoured evs d"
    and "i \<in> set (pending d)" "i \<notin> set (aborted d)"
    and "\<forall>j\<in>set (pending d). j \<noteq> i \<longrightarrow> j \<in> set (aborted d)"
    and "pending (run evs d) = []"
  shows "\<exists>res. first_settle i evs = Some res \<and> ui (run evs d) = fetchMovies_finish res (ui d)"
  using assms
proof (induction evs arbitrary: d)
  case Nil
  then show ?case by simp
next
  case (Cons e evs)
  from Cons.prems(1) obtain j res where e: "e = Settle j res"
    using is_Settle_cases by fastforce
  let ?d = "step e d"
  consider (live) "j = i" | (stale) "j \<noteq> i" "j \<in> set (pending d)"
    | (gone) "j \<noteq> i" "j \<notin> set (pending d)" by blast
  then show ?case
  proof cases
    case live
    with e Cons.prems(3) have u: "ui ?d = fetchMovies_finish res (ui d)" by simp
    have sub: "set (pending ?d) \<subseteq> set (aborted ?d)"
      using e live Cons.prems(3,5) by auto
    have nl: "\<not> isLoading (ui ?d)" by (simp add: u finish_not_loading)
    have "ui (run evs ?d) = (ui ?d)\<lparr>isLoading := False\<rparr>"
      using stale_only [of evs ?d] Cons.prems(1,2,6) sub nl by simp
    with nl have "ui (run evs ?d) = ui ?d" by simp
    with u e live show ?thesis by simp
  next
    case stale
    with e Cons.prems(2,5) have ab: "abort_error_caught res" by auto
    with stale e have u: "ui ?d = (ui d)\<lparr>isLoading := False\<rparr>"
      by (simp add: finish_abort)
    have p: "i \<in> set (pending ?d)" "i \<notin> set (aborted ?d)"
      "\<forall>k\<in>set (pending ?d). k \<noteq> i \<longrightarrow> k \<in> set (aborted ?d)"
      using e stale Cons.prems(3,4,5) by auto
    from Cons.IH [of ?d] Cons.prems(1,2,6) p
    obtain r where r: "first_settle i evs = Some r" "ui (run evs ?d) = fetchMovies_finish r (ui ?d)"
      by auto
    with u e stale show ?thesis by (simp add: finish_loading_irrelevant)
  next
    case gone
    with e have same: "?d = d" by simp
    from Cons.IH [of d] Cons.prems same e gone show ?thesis by simp
  qed
qed

lemmas eval_defs =
  init_config_def initial_state_def effect_def run_cleanup_def Let_def fetchMovies_start_def
  fetchMovies_finish_def fetchMovies_try_def abort_error_caught_def new_Error_def
  AbortError_def found_def not_found_def

lemma aborted_step: "set (aborted c) \<subseteq> set (aborted (step e c))"
  by (cases e) (auto simp: effect_def run_cleanup_def Let_def split: option.splits)

lemma aborted_run: "set (aborted c) \<subseteq> set (aborted (run es c))"
proof (induction es arbitrary: c)
  case Nil
  show ?case by simp
next
  case (Cons e es)
  have "set (aborted c) \<subseteq> set (aborted (step e c))" by (rule aborted_step)
  also have "\<dots> \<subseteq> set (aborted (run es (step e c)))" by (rule Cons.IH)
  finally show ?case by simp
qed

lemma run_cleanup_aborts:
  assumes "wf_config c" "i \<in> set (pending c)"
  shows "i \<in> set (aborted (run_cleanup c))"
  using assms by (auto simp: wf_config_def run_cleanup_def split: option.splits)

lemma run_cleanup_keeps:
  "ui (run_cleanup c) = ui c" "pending (run_cleanup c) = pending c" "fresh (run_cleanup c) = fresh c"
  by (simp_all add: run_cleanup_def split: option.splits)

lemma render_long:
  assumes "wf_config c" "3 \<le> length q"
  shows "ui (step (Render q) c) = fetchMovies_start (ui c)"
    and "fresh c \<in> set (pending (step (Render q) c))"
    and "fresh c \<notin> set (aborted (step (Render q) c))"
    and "\<forall>j\<in>set (pending (step (Render q) c)). j \<noteq> fresh c \<longrightarrow> j \<in> set (aborted (step (Render q) c))"
proof -
  let ?k = "run_cleanup c"
  have k: "wf_config ?k" "cleanup ?k = None" "ui ?k = ui c" "fresh ?k = fresh c"
    using assms(1) by (simp_all add: wf_run_cleanup cleanup_run_cleanup run_cleanup_keeps)
  have e: "step (Render q) c =
      ?k\<lparr>fresh := Suc (fresh c), ui := fetchMovies_start (ui c),
          pending := fresh c # pending ?k, cleanup := Some (fresh c)\<rparr>"
    using assms(2) k by (simp add: effect_def Let_def)
  show "ui (step (Render q) c) = fetchMovies_start (ui c)" by (simp add: e del: step.simps)
  show "fresh c \<in> set (pending (step (Render q) c))" by (simp add: e del: step.simps)
  show "fresh c \<notin> set (aborted (step (Render q) c))"
    using k(1,4) by (auto simp: e wf_config_def simp del: step.simps split: option.splits)
  show "\<forall>j\<in>set (pending (step (Render q) c)). j \<noteq> fresh c \<longrightarrow> j \<in> set (aborted (step (Render q) c))"
    using k(1,2) by (auto simp: e wf_config_def simp del: step.simps split: option.splits)
qed

lemma render_short:
  assumes "length q < 3"
  shows "step (Render q) c =
      (run_cleanup c)\<lparr>fresh := Suc (fresh c), ui := (ui c)\<lparr>movies := [], error := Some ''''\<rparr>,
          cleanup := None\<rparr>"
  using assms by (simp add: effect_def Let_def run_cleanup_keeps)

lemma finish_failure:
  assumes "fetchMovies_try res = Inl e" "name e \<noteq> ''AbortError''"
  shows "fetchMovies_finish res s = s\<lparr>error := Some (message e), isLoading := False\<rparr>"
  using assms by (simp add: fetchMovies_finish_def)

lemma count_list_filter:
  "P m \<Longrightarrow> count_list (filter P xs) m = count_list xs m"
  by (induction xs) auto

lemmas fl_defs = round64_def round_half_even_def pow2_def to_number_def Let_def

lemma unmounted_stays: "\<not> mounted x \<Longrightarrow> \<not> mounted (react_run es x)"
proof (induction es arbitrary: x)
  case Nil
  then show ?case by simp
next
  case (Cons e es)
  from Cons.prems have "\<not> mounted (react_step e x)" by (cases e) simp_all
  then show ?case using Cons.IH by simp
qed

lemma unmounted_frozen:
  "\<not> mounted x \<Longrightarrow> ui (hook (react_run es x)) = ui (hook x)
     \<and> set (aborted (hook x)) \<subseteq> set (aborted (hook (react_run es x)))"
proof (induction es arbitrary: x)
  case Nil
  then show ?case by simp
next
  case (Cons e es)
  let ?y = "react_step e x"
  from Cons.prems have y: "\<not> mounted ?y" "ui (hook ?y) = ui (hook x)" "aborted (hook ?y) = aborted (hook x)"
    by (cases e; simp)+
  from Cons.IH [OF y(1)] y(2,3) show ?case by simp
qed

lemma mounted_run:
  "mounted (react_run es x) \<Longrightarrow> mounted x \<and> hook (react_run es x) = run es (hook x)"
proof (induction es arbitrary: x)
  case Nil
  then show ?case by simp
next
  case (Cons e es)
  from Cons.IH [of "react_step e x"] Cons.prems
  have m: "mounted (react_step e x)"
    and h: "hook (react_run es (react_step e x)) = run es (hook (react_step e x))"
    by simp_all
  have mx: "mounted x"
  proof (rule ccontr)
    assume "\<not> mounted x"
    then have "\<not> mounted (react_step e x)" by (cases e) simp_all
    with m show False by simp
  qed
  from mx have "hook (react_step e x) = step e (hook x)" by (cases e) simp_all
  with h mx show ?case by simp
qed

lemma to_number_representable: "representable y \<Longrightarrow> to_number (round64 y) = Fin y"
  by (simp add: representable_def to_number_def)

lemma average_unrounded:
  assumes "0 < n" "unrounded n a ys"
  shows "foldl (\<lambda>acc cur. js_add acc (js_div cur n)) (Fin a) (map Fin ys)
       = Fin (a + sum_list ys / real n)"
  using assms(2)
proof (induction ys arbitrary: a)
  case Nil
  then show ?case by simp
next
  case (Cons y ys)
  from Cons.prems have q: "representable (y / real n)" and s: "representable (a + y / real n)"
    and rest: "unrounded n (a + y / real n) ys" by simp_all
  from q have dv: "js_div (Fin y) n = Fin (y / real n)"
    using assms(1) by (simp add: representable_def)
  have "js_add (Fin a) (js_div (Fin y) n) = js_add (Fin a) (Fin (y / real n))"
    by (simp only: dv)
  also have "\<dots> = Fin (a + y / real n)"
    by (simp add: to_number_representable [OF s])
  finally have "js_add (Fin a) (js_div (Fin y) n) = Fin (a + y / real n)" .
  with Cons.IH [OF rest] show ?case by (simp add: add_divide_distrib del: js_div.simps)
qed

section \<open>The fetch lifecycle\<close>

text \<open>
  Claim C1. Take any history of the hook, then a change to a query \<open>q\<close> of at least three
  characters, then only completions of requests, in any order, where every request that
  was aborted completes with an \<^verbatim>\<open>AbortError\<close>. Once no request is suspended any
  more, the request of \<open>q\<close> has completed, and the state of the hook is exactly what the
  effect of \<open>q\<close> and the completion of its own request write onto the state the effect
  found: the completions of the superseded requests have left no trace.
\<close>

theorem final_state_reflects_last_query:
  assumes "c = run hist init_config" "3 \<le> length q"
    and "\<forall>e\<in>set evs. is_Settle e" "honoured evs (step (Render q) c)"
    and "pending (run evs (step (Render q) c)) = []"
  shows "\<exists>res. first_settle (fresh c) evs = Some res \<and>
           ui (run evs (step (Render q) c)) = fetchMovies_finish res (fetchMovies_start (ui c))"
proof -
  have wf: "wf_config c" using assms(1) by (simp add: wf_reachable)
  note live = render_long [OF wf assms(2)]
  from live_then_stale [OF assms(3,4) live(2,3,4) assms(5)] live(1)
  show ?thesis by simp
qed

text \<open>The query "ali" is superseded by "alien"; the aborted request completes first, then
  the answer for "alien" arrives.\<close>

theorem final_state_reflects_last_query_witness:
  "3 \<le> length ''alien''
   \<and> honoured [Settle 0 (Rejected AbortError), Settle 1 (found [7, 8])]
        (step (Render ''alien'') (run [Render ''ali''] (init_config :: nat config)))
   \<and> pending (run [Settle 0 (Rejected AbortError), Settle 1 (found [7, 8])]
        (step (Render ''alien'') (run [Render ''ali''] (init_config :: nat config)))) = []
   \<and> ui (run [Settle 0 (Rejected AbortError), Settle 1 (found [7, 8])]
        (step (Render ''alien'') (run [Render ''ali''] (init_config :: nat config))))
     = \<lparr>movies = [7, 8], isLoading = False, error = Some ''''\<rparr>"
  using final_state_reflects_last_query
    [of "run [Render ''ali''] (init_config :: nat config)" "[Render ''ali'']" "''alien''"
        "[Settle 0 (Rejected AbortError), Settle 1 (found [7, 8])]"]
  by (simp add: eval_defs)

text \<open>
  Claim C2, as amended. The request of a query of at least three characters is still
  suspended and completes with a failure that is not a cancellation: an error \<open>e\<close> other
  than an \<^verbatim>\<open>AbortError\<close> reaches the \<^verbatim>\<open>catch\<close> block. Then the hook writes the
  message of \<open>e\<close> to \<^verbatim>\<open>error\<close> and \<open>False\<close> to \<^verbatim>\<open>isLoading\<close>, and leaves
  \<^verbatim>\<open>movies\<close> as they were. For a response with a status that is not ok and for the
  provider's "not found" answer the message is one of two fixed, non-empty strings; for a
  rejected \<^verbatim>\<open>fetch\<close> it is the message of the rejection.
\<close>

theorem failed_lookup_sets_error:
  assumes "3 \<le> length q" "d = run evs (step (Render q) c)" "fresh c \<in> set (pending d)"
    and "fetchMovies_try res = Inl e" "name e \<noteq> ''AbortError''"
  shows "ui (step (Settle (fresh c) res) d) = (ui d)\<lparr>error := Some (message e), isLoading := False\<rparr>
     \<and> (\<forall>rsp. res = Resolved rsp \<and> (\<not> ok rsp \<or> (\<exists>body. json rsp = Inr body))
          \<longrightarrow> (message e = ''Something went wrong with fetching movies''
               \<or> message e = ''Movie not found'') \<and> message e \<noteq> [])"
proof -
  have "ui (step (Settle (fresh c) res) d) = (ui d)\<lparr>error := Some (message e), isLoading := False\<rparr>"
    using assms(3) finish_failure [OF assms(4,5)] by simp
  moreover have "(message e = ''Something went wrong with fetching movies''
               \<or> message e = ''Movie not found'') \<and> message e \<noteq> []"
    if "res = Resolved rsp" "\<not> ok rsp \<or> (\<exists>body. json rsp = Inr body)" for rsp
    using that assms(4) by (auto simp: fetchMovies_try_def new_Error_def split: if_splits)
  ultimately show ?thesis by blast
qed

text \<open>"alien" has found two entries; "zzzz" then finds nothing: the error is set and the
  two entries stay.\<close>

theorem failed_lookup_sets_error_witness:
  "3 \<le> length ''zzzz''
   \<and> fresh (run [Render ''alien'', Settle 0 (found [7, 8])] (init_config :: nat config))
       \<in> set (pending (step (Render ''zzzz'')
               (run [Render ''alien'', Settle 0 (found [7, 8])] (init_config :: nat config))))
   \<and> fetchMovies_try (not_found :: nat fetch_result) = Inl (new_Error ''Movie not found'')
   \<and> name (new_Error ''Movie not found'') \<noteq> ''AbortError''
   \<and> ui (step (Settle 1 not_found) (step (Render ''zzzz'')
          (run [Render ''alien'', Settle 0 (found [7, 8])] (init_config :: nat config))))
     = \<lparr>movies = [7, 8], isLoading = False, error = Some ''Movie not found''\<rparr>"
  using failed_lookup_sets_error
    [of "''zzzz''" "step (Render ''zzzz'')
          (run [Render ''alien'', Settle 0 (found [7, 8])] (init_config :: nat config))"
        "[]" "run [Render ''alien'', Settle 0 (found [7, 8])] (init_config :: nat config)"
        not_found "new_Error ''Movie not found''"]
  by (simp add: eval_defs)

text \<open>Claim C2 as stated fails: after the failed lookup for "zzzz" the error is set, and
  \<^verbatim>\<open>movies\<close> still holds the two entries found for "alien".\<close>

theorem failed_lookup_keeps_movies_counterexample:
  "error (ui (run [Render ''alien'', Settle 0 (found [7, 8]), Render ''zzzz'', Settle 1 not_found]
        (init_config :: nat config))) = Some ''Movie not found''
   \<and> movies (ui (run [Render ''alien'', Settle 0 (found [7, 8]), Render ''zzzz'', Settle 1 not_found]
        (init_config :: nat config))) \<noteq> []"
  by (simp add: eval_defs)

text \<open>
  Claim C3. For a query \<open>q\<close> shorter than three characters and any configuration, the
  effect sets \<^verbatim>\<open>movies\<close> to the empty list and \<^verbatim>\<open>error\<close> to the empty string,
  leaves \<^verbatim>\<open>isLoading\<close> as it is, suspends no new request and registers no cleanup.
  When the configuration is one the hook can reach and the requests still suspended (all
  aborted by then) complete with an \<^verbatim>\<open>AbortError\<close>, the state ends as empty data, no
  error and no spinner.
\<close>

theorem short_query_clears:
  assumes "length q < 3"
  shows "movies (ui (step (Render q) c)) = []
     \<and> error (ui (step (Render q) c)) = Some ''''
     \<and> isLoading (ui (step (Render q) c)) = isLoading (ui c)
     \<and> pending (step (Render q) c) = pending c
     \<and> cleanup (step (Render q) c) = None
     \<and> (c = run hist init_config \<and> (\<forall>e\<in>set evs. is_Settle e)
          \<and> honoured evs (step (Render q) c) \<and> pending (run evs (step (Render q) c)) = []
        \<longrightarrow> ui (run evs (step (Render q) c))
              = \<lparr>movies = [], isLoading = False, error = Some ''''\<rparr>)"
proof -
  let ?d = "step (Render q) c"
  note d = render_short [OF assms, of c]
  have now: "movies (ui ?d) = []" "error (ui ?d) = Some ''''" "isLoading (ui ?d) = isLoading (ui c)"
    "pending ?d = pending c" "cleanup ?d = None"
    by (simp_all add: d run_cleanup_keeps del: step.simps)
  have later: "ui (run evs ?d) = \<lparr>movies = [], isLoading = False, error = Some ''''\<rparr>"
    if r: "c = run hist init_config" and s: "\<forall>e\<in>set evs. is_Settle e"
      and h: "honoured evs ?d" and p: "pending (run evs ?d) = []"
  proof -
    have wf: "wf_config c" using r by (simp add: wf_reachable)
    have sub: "set (pending ?d) \<subseteq> set (aborted ?d)"
      using run_cleanup_aborts [OF wf] by (auto simp: d run_cleanup_keeps simp del: step.simps)
    have spin: "isLoading (ui ?d) \<longrightarrow> pending ?d \<noteq> []"
      using wf now(3,4) by (simp add: wf_config_def del: step.simps)
    have "ui (run evs ?d) = (ui ?d)\<lparr>isLoading := False\<rparr>"
      by (rule stale_only [OF s h sub p spin])
    with now(1,2) show ?thesis by (cases "ui ?d") (simp del: step.simps)
  qed
  from now later show ?thesis by blast
qed

text \<open>Two entries are shown and the request for "aliens" is suspended when the query
  becomes "al".\<close>

theorem short_query_clears_witness:
  "length ''al'' < 3
   \<and> movies (ui (run [Render ''alien'', Settle 0 (found [7, 8]), Render ''aliens'']
        (init_config :: nat config))) = [7, 8]
   \<and> ui (step (Render ''al'') (run [Render ''alien'', Settle 0 (found [7, 8]), Render ''aliens'']
        (init_config :: nat config)))
     = \<lparr>movies = [], isLoading = True, error = Some ''''\<rparr>
   \<and> pending (step (Render ''al'') (run [Render ''alien'', Settle 0 (found [7, 8]), Render ''aliens'']
        (init_config :: nat config))) = [1]
   \<and> honoured [Settle 1 (Rejected AbortError)]
        (step (Render ''al'') (run [Render ''alien'', Settle 0 (found [7, 8]), Render ''aliens'']
          (init_config :: nat config)))
   \<and> ui (run [Settle 1 (Rejected AbortError)]
        (step (Render ''al'') (run [Render ''alien'', Settle 0 (found [7, 8]), Render ''aliens'']
          (init_config :: nat config))))
     = \<lparr>movies = [], isLoading = False, error = Some ''''\<rparr>"
  using short_query_clears
    [of "''al''" "run [Render ''alien'', Settle 0 (found [7, 8]), Render ''aliens'']
          (init_config :: nat config)"
        "[Render ''alien'', Settle 0 (found [7, 8]), Render ''aliens'']"
        "[Settle 1 (Rejected AbortError)]"]
  by (simp add: eval_defs)

text \<open>
  Claim C4. A component has been mounted, has gone through any history and is still
  mounted, and the request of controller \<open>i\<close> is suspended. The unmount runs the cleanup,
  which aborts that controller and writes nothing; and whatever completes afterwards, in
  any order and with any result, \<^verbatim>\<open>movies\<close>, \<^verbatim>\<open>isLoading\<close> and
  \<^verbatim>\<open>error\<close> stay as they were at the unmount, and the controller stays aborted.
\<close>

theorem teardown_no_further_mutation:
  assumes "x = react_run hist mount" "mounted x" "i \<in> set (pending (hook x))"
  shows "i \<in> set (aborted (hook (react_step Unmount x)))
     \<and> ui (hook (react_step Unmount x)) = ui (hook x)
     \<and> i \<in> set (aborted (hook (react_run evs (react_step Unmount x))))
     \<and> ui (hook (react_run evs (react_step Unmount x))) = ui (hook x)"
proof -
  let ?y = "react_step Unmount x"
  have "hook x = run hist init_config"
    using mounted_run [of hist mount] assms(1,2) by (simp add: mount_def)
  then have wf: "wf_config (hook x)" by (simp add: wf_reachable)
  have ab: "i \<in> set (aborted (run_cleanup (hook x)))"
    by (rule run_cleanup_aborts [OF wf assms(3)])
  have y: "\<not> mounted ?y" "ui (hook ?y) = ui (hook x)" "i \<in> set (aborted (hook ?y))"
    using assms(2) ab by (simp_all add: run_cleanup_keeps)
  from unmounted_frozen [OF y(1), of evs] y(2,3) show ?thesis by auto
qed

text \<open>The request for "alien" is suspended at the unmount; afterwards it completes, first
  as the abort demands and then once more with an intact response. The state stays as
  the unmount left it, spinner included.\<close>

theorem teardown_no_further_mutation_witness:
  "mounted (react_run [Render ''alien''] (mount :: nat component))
   \<and> 0 \<in> set (pending (hook (react_run [Render ''alien''] (mount :: nat component))))
   \<and> 0 \<in> set (aborted (hook (react_step Unmount
        (react_run [Render ''alien''] (mount :: nat component)))))
   \<and> ui (hook (react_run [Render ''alien''] (mount :: nat component)))
     = \<lparr>movies = [], isLoading = True, error = Some ''''\<rparr>
   \<and> ui (hook (react_run [Settle 0 (Rejected AbortError), Settle 0 (found [1])]
        (react_step Unmount (react_run [Render ''alien''] (mount :: nat component)))))
     = \<lparr>movies = [], isLoading = True, error = Some ''''\<rparr>"
  using teardown_no_further_mutation
    [of "react_run [Render ''alien''] (mount :: nat component)" "[Render ''alien'']" 0
        "[Settle 0 (Rejected AbortError), Settle 0 (found [1])]"]
  by (simp add: eval_defs mount_def)

text \<open>
  Claim C5. A request is suspended when the query changes; whatever happens next, when
  that request completes with an \<^verbatim>\<open>AbortError\<close> its controller has been aborted and
  the completion writes neither \<^verbatim>\<open>movies\<close> nor \<^verbatim>\<open>error\<close>: no result and no
  error message of the cancelled request reaches the state.
\<close>

theorem cancelled_request_writes_no_result:
  assumes "c = run hist init_config" "i \<in> set (pending c)"
    and "d = run evs (step (Render q) c)" "abort_error_caught res"
  shows "i \<in> set (aborted d)
     \<and> movies (ui (step (Settle i res) d)) = movies (ui d)
     \<and> error (ui (step (Settle i res) d)) = error (ui d)"
proof -
  have wf: "wf_config c" using assms(1) by (simp add: wf_reachable)
  have "i \<in> set (aborted (run_cleanup c))" by (rule run_cleanup_aborts [OF wf assms(2)])
  then have "i \<in> set (aborted (step (Render q) c))"
    by (simp add: effect_def Let_def)
  then have "i \<in> set (aborted d)" using aborted_run assms(3) by blast
  moreover have "movies (ui (step (Settle i res) d)) = movies (ui d)"
    "error (ui (step (Settle i res) d)) = error (ui d)"
    using finish_abort [OF assms(4), of "ui d"] by simp_all
  ultimately show ?thesis by simp
qed

text \<open>"ali" is superseded by "alien", whose answer arrives before the aborted request
  completes.\<close>

theorem cancelled_request_writes_no_result_witness:
  "0 \<in> set (pending (run [Render ''ali''] (init_config :: nat config)))
   \<and> abort_error_caught (Rejected AbortError :: nat fetch_result)
   \<and> 0 \<in> set (aborted (run [Settle 1 (found [7, 8])]
        (step (Render ''alien'') (run [Render ''ali''] (init_config :: nat config)))))
   \<and> movies (ui (step (Settle 0 (Rejected AbortError)) (run [Settle 1 (found [7, 8])]
        (step (Render ''alien'') (run [Render ''ali''] (init_config :: nat config)))))) = [7, 8]
   \<and> error (ui (step (Settle 0 (Rejected AbortError)) (run [Settle 1 (found [7, 8])]
        (step (Render ''alien'') (run [Render ''ali''] (init_config :: nat config)))))) = Some ''''"
  using cancelled_request_writes_no_result
    [of "run [Render ''ali''] (init_config :: nat config)" "[Render ''ali'']" 0
        "run [Settle 1 (found [7, 8])]
           (step (Render ''alien'') (run [Render ''ali''] (init_config :: nat config)))"
        "[Settle 1 (found [7, 8])]" "''alien''" "Rejected AbortError"]
  by (simp add: eval_defs)

text \<open>
  Claim C6. The request of a query of at least three characters is still suspended and
  its response parses to data whose field \<^verbatim>\<open>Response\<close> is "False". Then the hook
  writes a message to \<^verbatim>\<open>error\<close> ("Movie not found" when the status is ok) and
  \<open>False\<close> to \<^verbatim>\<open>isLoading\<close>, and does not write \<^verbatim>\<open>movies\<close>: the outcome is an
  error, not a success with the list the data carries.
\<close>

theorem not_found_is_error:
  assumes "3 \<le> length q" "d = run evs (step (Render q) c)" "fresh c \<in> set (pending d)"
    and "json rsp = Inr body" "Response body = ''False''"
  shows "ui (step (Settle (fresh c) (Resolved rsp)) d)
       = (ui d)\<lparr>error := Some (if ok rsp then ''Movie not found''
                                else ''Something went wrong with fetching movies''),
                isLoading := False\<rparr>"
  using assms(3,4,5)
  by (simp add: fetchMovies_finish_def fetchMovies_try_def new_Error_def)

theorem not_found_is_error_witness:
  "3 \<le> length ''zzzz''
   \<and> fresh (init_config :: nat config)
       \<in> set (pending (step (Render ''zzzz'') (init_config :: nat config)))
   \<and> ui (step (Settle 0 (Resolved \<lparr>ok = True, json = Inr \<lparr>Response = ''False'', Search = []\<rparr>\<rparr>))
          (step (Render ''zzzz'') (init_config :: nat config)))
     = \<lparr>movies = [], isLoading = False, error = Some ''Movie not found''\<rparr>"
  using not_found_is_error
    [of "''zzzz''" "step (Render ''zzzz'') (init_config :: nat config)" "[]" init_config
        "\<lparr>ok = True, json = Inr \<lparr>Response = ''False'', Search = []\<rparr>\<rparr>"
        "\<lparr>Response = ''False'', Search = []\<rparr>"]
  by (simp add: eval_defs)

text \<open>
  Claim C7, as amended. When the request of an aborted controller is still suspended and
  completes with an \<^verbatim>\<open>AbortError\<close> (the transport honours the abort), the completion
  writes neither \<^verbatim>\<open>movies\<close> nor \<^verbatim>\<open>error\<close>: it sets \<^verbatim>\<open>isLoading\<close> to
  \<open>False\<close> and the request is no longer suspended; nothing else changes.
\<close>

theorem aborted_completion_only_clears_loading:
  assumes "i \<in> set (pending d)" "i \<in> set (aborted d)" "abort_error_caught res"
  shows "step (Settle i res) d
       = d\<lparr>ui := (ui d)\<lparr>isLoading := False\<rparr>, pending := removeAll i (pending d)\<rparr>"
  using assms(1) finish_abort [OF assms(3)] by simp

theorem aborted_completion_only_clears_loading_witness:
  "0 \<in> set (pending (run [Render ''ali'', Render ''alien'', Settle 1 (found [7, 8])]
        (init_config :: nat config)))
   \<and> 0 \<in> set (aborted (run [Render ''ali'', Render ''alien'', Settle 1 (found [7, 8])]
        (init_config :: nat config)))
   \<and> abort_error_caught (Rejected AbortError :: nat fetch_result)
   \<and> ui (step (Settle 0 (Rejected AbortError))
        (run [Render ''ali'', Render ''alien'', Settle 1 (found [7, 8])]
          (init_config :: nat config)))
     = \<lparr>movies = [7, 8], isLoading = False, error = Some ''''\<rparr>"
  using aborted_completion_only_clears_loading
    [of 0 "run [Render ''ali'', Render ''alien'', Settle 1 (found [7, 8])]
          (init_config :: nat config)" "Rejected AbortError"]
  by (simp add: eval_defs)

text \<open>Claim C7 as stated fails: the hook compares no token. The request for "ali" was
  aborted and the answer for "alien" is shown; when the response for "ali" still arrives
  intact, it replaces the entries of "alien".\<close>

theorem late_intact_response_counterexample:
  "0 \<in> set (aborted (run [Render ''ali'', Render ''alien'', Settle 1 (found [7, 8])]
        (init_config :: nat config)))
   \<and> movies (ui (run [Render ''ali'', Render ''alien'', Settle 1 (found [7, 8])]
        (init_config :: nat config))) = [7, 8]
   \<and> movies (ui (step (Settle 0 (found [1]))
        (run [Render ''ali'', Render ''alien'', Settle 1 (found [7, 8])]
          (init_config :: nat config)))) = [1]"
  by (simp add: eval_defs)

section \<open>Persistence\<close>

text \<open>
  Claim C8. For an array \<open>v\<close> that \<^verbatim>\<open>JSON.parse\<close> reads back from what
  \<^verbatim>\<open>JSON.stringify\<close> writes (the string is never empty), the effect stores
  \<^verbatim>\<open>JSON.stringify([...v])\<close> under the key, the spread copy equals \<open>v\<close>, and the
  lazy initialiser run on the resulting storage with the same key yields \<open>v\<close>. With no
  stored string, or an empty one, the initial value is \<^verbatim>\<open>initialState\<close>; with any
  other stored string it is what \<^verbatim>\<open>JSON.parse\<close> makes of it.
\<close>

theorem storage_round_trip:
  assumes "JSON_parse (JSON_stringify v) = Inr v" "JSON_stringify v \<noteq> []"
  shows "getItem (persist JSON_stringify key v st) key = Some (JSON_stringify (spread v))
     \<and> spread v = v
     \<and> lazy_init JSON_parse (persist JSON_stringify key v st) initialState key = Inr v
     \<and> (getItem st key = None \<or> getItem st key = Some []
          \<longrightarrow> lazy_init JSON_parse st initialState key = Inr initialState)
     \<and> (\<forall>s. getItem st key = Some s \<and> s \<noteq> []
          \<longrightarrow> lazy_init JSON_parse st initialState key = JSON_parse s)"
  using assms
  by (auto simp: lazy_init_def persist_def getItem_def setItem_def spread_eq)

theorem storage_round_trip_witness:
  "parse_bools (stringify_bools [True, False]) = Inr [True, False]
   \<and> stringify_bools [True, False] \<noteq> []
   \<and> lazy_init parse_bools (persist stringify_bools ''watched'' [True, False] Map.empty) []
        ''watched'' = Inr [True, False]
   \<and> lazy_init parse_bools Map.empty [] ''watched'' = Inr []"
  using storage_round_trip [of parse_bools stringify_bools "[True, False]" "''watched''" Map.empty "[]"]
  by (simp add: parse_bools_def stringify_bools_def getItem_def)

section \<open>The watched list\<close>

text \<open>
  Claim C9, as amended. On the empty array \<^verbatim>\<open>average\<close> is \<open>0\<close>, so the three
  averages of \<^verbatim>\<open>WatchedSummary\<close> on the empty watched list are \<open>0\<close> and none is
  NaN. On a non-empty array of finite numbers \<^verbatim>\<open>average\<close> is the sum divided by
  the length whenever no step of the \<^verbatim>\<open>reduce\<close> rounds, that is, every quotient
  \<^verbatim>\<open>cur / arr.length\<close> and every partial sum is a finite binary64 value.
\<close>

theorem average_empty_or_unrounded:
  "average [] = Fin 0
   \<and> WatchedSummary [] = \<lparr>avgImdbRating = Fin 0, avgUserRating = Fin 0, avgRuntime = Fin 0\<rparr>
   \<and> (xs \<noteq> [] \<and> unrounded (length xs) 0 xs
        \<longrightarrow> average (map Fin xs) = Fin (sum_list xs / real (length xs)))"
proof -
  have "average (map Fin xs) = Fin (sum_list xs / real (length xs))"
    if "xs \<noteq> []" "unrounded (length xs) 0 xs"
  proof -
    from that(1) have "0 < length xs" by simp
    from average_unrounded [OF this that(2)] show ?thesis by (simp add: average_def)
  qed
  then show ?thesis by (simp add: average_def WatchedSummary_def)
qed

text \<open>The quarters of 1, 2, 3 and 4 and their partial sums are binary64 values.\<close>

theorem average_empty_or_unrounded_witness:
  "[1, 2, 3, 4] \<noteq> ([] :: real list)
   \<and> unrounded (length [1, 2, 3, 4 :: real]) 0 [1, 2, 3, 4]
   \<and> average (map Fin [1, 2, 3, 4]) = Fin (5 / 2)
   \<and> WatchedSummary [] = \<lparr>avgImdbRating = Fin 0, avgUserRating = Fin 0, avgRuntime = Fin 0\<rparr>
   \<and> WatchedSummary [watched_entry ''tt01'' 7, watched_entry ''tt02'' 9]
     = \<lparr>avgImdbRating = Fin 8, avgUserRating = Fin 8, avgRuntime = Fin 117\<rparr>"
  using average_empty_or_unrounded [of "[1, 2, 3, 4]"]
  by (simp add: representable_def fl_defs WatchedSummary_def watched_entry_def average_def)

text \<open>Claim C9 as stated fails: a sixth is not a binary64 value, and the six rounded
  sixths of 1 add up to \<open>1 - 2 ^ - 53\<close> (printed as 0.9999999999999999), while the sum
  of six ones divided by 6 is 1.\<close>

theorem average_six_ones_counterexample:
  "average [Fin 1, Fin 1, Fin 1, Fin 1, Fin 1, Fin 1] = Fin (9007199254740991 / 9007199254740992)
   \<and> sum_over_length [Fin 1, Fin 1, Fin 1, Fin 1, Fin 1, Fin 1] = Fin 1
   \<and> average [Fin 1, Fin 1, Fin 1, Fin 1, Fin 1, Fin 1]
       \<noteq> sum_over_length [Fin 1, Fin 1, Fin 1, Fin 1, Fin 1, Fin 1]
   \<and> average (map Fin [1, 1, 1, 1, 1, 1])
       \<noteq> Fin (sum_list [1, 1, 1, 1, 1, 1] / real (length [1, 1, 1, 1, 1, 1 :: real]))"
  by (simp add: average_def sum_over_length_def fl_defs)

text \<open>
  Claim C10. \<^verbatim>\<open>handleDeleteWatched(id)\<close> replaces the watched list by its entries
  whose \<^verbatim>\<open>imdbID\<close> differs from \<open>id\<close>: the new list is a subsequence of the old one
  (the order is kept), every entry with another \<^verbatim>\<open>imdbID\<close> occurs in it as often as
  before and unchanged, and every entry of it comes from the old list and has another
  \<^verbatim>\<open>imdbID\<close>.
\<close>

theorem handleDeleteWatched_keeps_others:
  "handleDeleteWatched id' watched = filter (\<lambda>movie. imdbID movie \<noteq> id') watched
   \<and> subseq (handleDeleteWatched id' watched) watched
   \<and> (\<forall>movie. imdbID movie \<noteq> id'
        \<longrightarrow> count_list (handleDeleteWatched id' watched) movie = count_list watched movie)
   \<and> (\<forall>movie\<in>set (handleDeleteWatched id' watched). movie \<in> set watched \<and> imdbID movie \<noteq> id')"
proof -
  have eq: "handleDeleteWatched id' watched = filter (\<lambda>movie. imdbID movie \<noteq> id') watched"
    by (simp add: handleDeleteWatched_def array_filter_eq)
  show ?thesis
    using count_list_filter [of "\<lambda>movie. imdbID movie \<noteq> id'"] by (auto simp: eq)
qed

theorem handleDeleteWatched_keeps_others_witness:
  "handleDeleteWatched ''tt02''
     [watched_entry ''tt01'' 7, watched_entry ''tt02'' 8, watched_entry ''tt03'' 9]
   = [watched_entry ''tt01'' 7, watched_entry ''tt03'' 9]
   \<and> count_list (handleDeleteWatched ''tt02''
        [watched_entry ''tt01'' 7, watched_entry ''tt02'' 8, watched_entry ''tt03'' 9])
        (watched_entry ''tt03'' 9) = 1"
  using handleDeleteWatched_keeps_others
    [of "''tt02''" "[watched_entry ''tt01'' 7, watched_entry ''tt02'' 8, watched_entry ''tt03'' 9]"]
  by (simp add: watched_entry_def)

end
